theory Spec2Isabelle
  imports Complex_Main "HOL-Library.Sublist"
begin

section \<open>Python values\<close>

text \<open>
  The scoring engine of \<^verbatim>\<open>streamlit_app.py\<close> computes with Python floats. A float is
  modelled as an exact real number or the not-a-number value: rounding error, overflow to
  infinity and the identity of NaN objects are not modelled, except for the weights, whose
  rounding as doubles is modelled in the section on double arithmetic. A metric read from
  the bundle
  with \<^verbatim>\<open>m.get(key)\<close> may also be Python's \<^verbatim>\<open>None\<close>, so a metric is an optional
  float; \<open>None\<close> is Python's \<^verbatim>\<open>None\<close> (also a key that is absent from the dict).
\<close>

datatype error = TypeError | ZeroDivisionError | KeyError

datatype fl = Fin real | NaN

type_synonym pyval = "fl option"

text \<open>Float arithmetic: NaN propagates through every operation.\<close>

instantiation fl :: "{plus, minus, times, abs}"
begin

fun plus_fl :: "fl \<Rightarrow> fl \<Rightarrow> fl" where
  "plus_fl (Fin a) (Fin b) = Fin (a + b)"
| "plus_fl _ _ = NaN"

fun minus_fl :: "fl \<Rightarrow> fl \<Rightarrow> fl" where
  "minus_fl (Fin a) (Fin b) = Fin (a - b)"
| "minus_fl _ _ = NaN"

fun times_fl :: "fl \<Rightarrow> fl \<Rightarrow> fl" where
  "times_fl (Fin a) (Fin b) = Fin (a * b)"
| "times_fl _ _ = NaN"

fun abs_fl :: "fl \<Rightarrow> fl" where
  "abs_fl (Fin a) = Fin \<bar>a\<bar>"
| "abs_fl NaN = NaN"

instance ..

end

text \<open>\<^verbatim>\<open>a / b\<close>: a zero divisor raises, also under a NaN dividend.\<close>

fun fdiv :: "fl \<Rightarrow> fl \<Rightarrow> error + fl" where
  "fdiv a (Fin b) =
     (if b = 0 then Inl ZeroDivisionError
      else (case a of Fin x \<Rightarrow> Inr (Fin (x / b)) | NaN \<Rightarrow> Inr NaN))"
| "fdiv a NaN = Inr NaN"

text \<open>\<^verbatim>\<open>np.isnan(x)\<close>\<close>

fun isnan :: "fl \<Rightarrow> bool" where
  "isnan NaN = True"
| "isnan (Fin x) = False"

text \<open>Truth value of a metric: \<^verbatim>\<open>None\<close> and zero are false, NaN is true.\<close>

fun truthy :: "pyval \<Rightarrow> bool" where
  "truthy None = False"
| "truthy (Some (Fin x)) = (x \<noteq> 0)"
| "truthy (Some NaN) = True"

text \<open>\<^verbatim>\<open>a or d\<close> with a float default \<open>d\<close>.\<close>

fun py_or :: "pyval \<Rightarrow> fl \<Rightarrow> fl" where
  "py_or None d = d"
| "py_or (Some (Fin x)) d = (if x = 0 then d else Fin x)"
| "py_or (Some NaN) d = NaN"

text \<open>Comparison \<^verbatim>\<open>a >= b\<close> of floats: false as soon as one side is NaN.\<close>

fun fge :: "fl \<Rightarrow> fl \<Rightarrow> bool" where
  "fge (Fin a) (Fin b) = (a \<ge> b)"
| "fge _ _ = False"

text \<open>Sequencing of computations that may raise.\<close>

fun ebind :: "error + 'a \<Rightarrow> ('a \<Rightarrow> error + 'b) \<Rightarrow> error + 'b" where
  "ebind (Inl e) f = Inl e"
| "ebind (Inr x) f = f x"

section \<open>Helpers\<close>

text \<open>
  \<^verbatim>\<open>
  def zclip(x, lo=0.0, hi=10.0):
      if x is None or (isinstance(x, float) and np.isnan(x)):
          return np.nan
      return max(lo, min(hi, float(x)))
  \<close>
\<close>

fun zclip :: "pyval \<Rightarrow> real \<Rightarrow> real \<Rightarrow> fl" where
  "zclip None lo hi = NaN"
| "zclip (Some NaN) lo hi = NaN"
| "zclip (Some (Fin x)) lo hi = Fin (max lo (min hi x))"

text \<open>
  \<^verbatim>\<open>np.nanmean(xs)\<close>: the mean of the entries that are not NaN, and NaN when there is
  none.
\<close>

definition nanmean :: "fl list \<Rightarrow> fl" where
  "nanmean xs =
     (let ys = concat (map (\<lambda>x. case x of Fin y \<Rightarrow> [y] | NaN \<Rightarrow> []) xs)
      in if ys = [] then NaN else Fin (sum_list ys / real (length ys)))"

text \<open>
  \<^verbatim>\<open>
  def renorm_weights(d):
      s = sum(v for v in d.values() if v is not None)
      return {k:(v/s if s>0 else 0) for k,v in d.items()}
  \<close>
  A dict is an association list in insertion order; a weight is a real number or
  \<^verbatim>\<open>None\<close>. Dividing \<^verbatim>\<open>None\<close> by the sum raises.
\<close>

fun renorm_entries :: "real \<Rightarrow> ('k \<times> real option) list \<Rightarrow> error + ('k \<times> real) list" where
  "renorm_entries s [] = Inr []"
| "renorm_entries s ((k, v) # d) =
     ebind (if s > 0 then (case v of None \<Rightarrow> Inl TypeError | Some x \<Rightarrow> Inr (x / s)) else Inr 0)
       (\<lambda>y. ebind (renorm_entries s d) (\<lambda>r. Inr ((k, y) # r)))"

definition renorm_weights :: "('k \<times> real option) list \<Rightarrow> error + ('k \<times> real) list" where
  "renorm_weights d =
     renorm_entries (sum_list (concat (map (\<lambda>(k, v). case v of None \<Rightarrow> [] | Some x \<Rightarrow> [x]) d))) d"

section \<open>Double arithmetic\<close>

text \<open>
  The weights are IEEE binary64 doubles. \<open>round_f64\<close> rounds a real number to the
  nearest double, a tie to the even significand: the number is scaled by a power of two
  so that its magnitude lies between \<open>2^52\<close> and \<open>2^53\<close>, rounded to an integer and
  scaled back. Overflow and subnormal numbers are not modelled. \<open>bit_length\<close> is the
  number of binary digits of a natural number, \<open>ilog2 x\<close> the exponent \<open>k\<close> with
  \<open>2^k \<le> x < 2^(k+1)\<close> for a positive \<open>x\<close>.
\<close>

fun bit_length :: "nat \<Rightarrow> nat" where
  "bit_length n = (if n = 0 then 0 else Suc (bit_length (n div 2)))"

declare bit_length.simps [simp del]

definition ilog2 :: "real \<Rightarrow> int" where
  "ilog2 x = (if 1 \<le> x then int (bit_length (nat \<lfloor>x\<rfloor>)) - 1
              else - int (bit_length (nat (\<lceil>1 / x\<rceil> - 1))))"

definition round_half_even :: "real \<Rightarrow> int" where
  "round_half_even y =
     (let f = \<lfloor>y\<rfloor>; d = y - of_int f
      in if d < 1/2 then f else if d > 1/2 then f + 1 else if even f then f else f + 1)"

definition round_f64 :: "real \<Rightarrow> real" where
  "round_f64 x =
     (if x = 0 then 0
      else let e = ilog2 \<bar>x\<bar> - 52
           in of_int (round_half_even (x / 2 powi e)) * 2 powi e)"

text \<open>The unit roundoff of doubles.\<close>

definition u64 :: real where
  "u64 = 1 / 2 ^ 53"

text \<open>
  \<^verbatim>\<open>sum(xs)\<close> in doubles: the items are added from left to right, starting from 0,
  and every partial sum is rounded (CPython up to 3.11; from 3.12 on \<^verbatim>\<open>sum\<close>
  compensates the rounding errors of the partial sums, which only brings the result
  closer to the exact sum).
\<close>

definition sum_f64 :: "real list \<Rightarrow> real" where
  "sum_f64 xs = foldl (\<lambda>a v. round_f64 (a + v)) 0 xs"

text \<open>
  \<^verbatim>\<open>renorm_weights\<close> as it runs on doubles: the sum \<open>s\<close> is \<open>sum_f64\<close> of the
  values and each quotient \<^verbatim>\<open>v/s\<close> is rounded. \<open>renorm_weights\<close> above is the same
  function in exact arithmetic.
\<close>

fun renorm_entries_f64 :: "real \<Rightarrow> ('k \<times> real option) list \<Rightarrow> error + ('k \<times> real) list" where
  "renorm_entries_f64 s [] = Inr []"
| "renorm_entries_f64 s ((k, v) # d) =
     ebind (if s > 0 then (case v of None \<Rightarrow> Inl TypeError | Some x \<Rightarrow> Inr (round_f64 (x / s)))
            else Inr 0)
       (\<lambda>y. ebind (renorm_entries_f64 s d) (\<lambda>r. Inr ((k, y) # r)))"

definition renorm_weights_f64 :: "('k \<times> real option) list \<Rightarrow> error + ('k \<times> real) list" where
  "renorm_weights_f64 d =
     renorm_entries_f64
       (sum_f64 (concat (map (\<lambda>(k, v). case v of None \<Rightarrow> [] | Some x \<Rightarrow> [x]) d))) d"

section \<open>Detection\<close>

text \<open>
  Codes are ASCII strings. \<^verbatim>\<open>str.strip()\<close> removes the white space characters at both
  ends (for ASCII: codes 9 to 13, 28 to 31 and the blank); \<^verbatim>\<open>str.upper()\<close> maps the
  letters a to z to A to Z.
\<close>

definition is_space :: "char \<Rightarrow> bool" where
  "is_space c =
     (c \<in> set [CHR 0x09, CHR 0x0A, CHR 0x0B, CHR 0x0C, CHR 0x0D,
                CHR 0x1C, CHR 0x1D, CHR 0x1E, CHR 0x1F, CHR '' ''])"

definition strip :: "string \<Rightarrow> string" where
  "strip s = rev (dropWhile is_space (rev (dropWhile is_space s)))"

definition upper_char :: "char \<Rightarrow> char" where
  "upper_char c =
     (case map_of (zip ''abcdefghijklmnopqrstuvwxyz'' ''ABCDEFGHIJKLMNOPQRSTUVWXYZ'') c of
        None \<Rightarrow> c | Some u \<Rightarrow> u)"

definition upper :: "string \<Rightarrow> string" where
  "upper s = map upper_char s"

text \<open>
  The country and the instrument type are the strings \<^verbatim>\<open>"US"\<close>, \<^verbatim>\<open>"India"\<close> and
  \<^verbatim>\<open>"Stock"\<close>, \<^verbatim>\<open>"ETF"\<close>, \<^verbatim>\<open>"Mutual Fund"\<close> in the source; no other value is produced.
\<close>

datatype country = US | India

datatype itype = Stock | ETF | Mutual_Fund

text \<open>
  \<^verbatim>\<open>
  def detect_country_and_type(code_raw: str):
      s = code_raw.strip().upper()
      if s.startswith("INF") or (len(s)==5 and s.endswith("X")):
          return ("India" if s.startswith("INF") else "US", "Mutual Fund", s)
      if s.startswith("NSE:") or s.startswith("BSE:"):
          return ("India", "Stock", s)
      if s.endswith("BEES"):
          return ("India", "ETF", s)
      return ("US", "Stock", s)
  \<close>
\<close>

definition detect_country_and_type :: "string \<Rightarrow> country \<times> itype \<times> string" where
  "detect_country_and_type code_raw =
     (let s = upper (strip code_raw) in
      if prefix ''INF'' s \<or> (length s = 5 \<and> suffix ''X'' s)
      then (if prefix ''INF'' s then India else US, Mutual_Fund, s)
      else if prefix ''NSE:'' s \<or> prefix ''BSE:'' s then (India, Stock, s)
      else if suffix ''BEES'' s then (India, ETF, s)
      else (US, Stock, s))"

text \<open>The codes the source lists as Indian exchange-traded funds: \<^verbatim>\<open>UNIVERSE["IN_ETFS"]\<close>.\<close>

definition IN_ETFS :: "string list" where
  "IN_ETFS = [''NSE:NIFTYBEES'', ''NSE:BANKBEES'', ''NSE:JUNIORBEES'']"

section \<open>Data\<close>

record medians =
  PE :: real
  EVEBITDA :: real
  PS :: real
  PFCF :: real

fun SECTOR_MEDIANS :: "country \<Rightarrow> (string \<times> medians) list" where
  "SECTOR_MEDIANS US =
     [(''Technology'', \<lparr>PE = 28, EVEBITDA = 19, PS = 6.0, PFCF = 25\<rparr>),
      (''Default'', \<lparr>PE = 18, EVEBITDA = 12, PS = 2.0, PFCF = 18\<rparr>)]"
| "SECTOR_MEDIANS India =
     [(''Technology'', \<lparr>PE = 30, EVEBITDA = 20, PS = 7.0, PFCF = 28\<rparr>),
      (''Default'', \<lparr>PE = 22, EVEBITDA = 14, PS = 3.0, PFCF = 22\<rparr>)]"

text \<open>
  \<^verbatim>\<open>SECTOR_MEDIANS.get(country, {}).get(sector, SECTOR_MEDIANS[country]["Default"])\<close>:
  the default is looked up first, and raises when it is missing.
\<close>

definition lookup_medians :: "country \<Rightarrow> string \<Rightarrow> error + medians" where
  "lookup_medians c sec =
     (case map_of (SECTOR_MEDIANS c) ''Default'' of
        None \<Rightarrow> Inl KeyError
      | Some dflt \<Rightarrow>
          Inr (case map_of (SECTOR_MEDIANS c) sec of None \<Rightarrow> dflt | Some r \<Rightarrow> r))"

text \<open>
  The metric bundle \<open>m\<close>: the keys that \<^verbatim>\<open>score_stock\<close> reads with \<^verbatim>\<open>m.get\<close>.
\<close>

record metrics =
  sector :: "string option"
  pe :: pyval
  pb :: pyval
  ps :: pyval
  pfcf :: pyval
  div_yield :: pyval
  beta :: pyval
  r_1y :: pyval
  r_3y :: pyval

section \<open>Factor models and weights\<close>

datatype factor =
  pe_vs_sector | financial_health | valuation | growth | management | moat | risk | dividend

text \<open>
  \<^verbatim>\<open>
  STOCK_W = renorm_weights({
      "pe_vs_sector": 0.125, "financial_health": 0.125, "valuation": 0.125, "growth": 0.125,
      "management": 0.125, "moat": 0.125, "risk": 0.125, "dividend": 0.125
  })
  \<close>
\<close>

definition STOCK_W_nominal :: "(factor \<times> real option) list" where
  "STOCK_W_nominal =
     [(pe_vs_sector, Some 0.125), (financial_health, Some 0.125), (valuation, Some 0.125),
      (growth, Some 0.125), (management, Some 0.125), (moat, Some 0.125),
      (risk, Some 0.125), (dividend, Some 0.125)]"

definition STOCK_W :: "(factor \<times> real) list" where
  "STOCK_W = (case renorm_weights STOCK_W_nominal of Inr w \<Rightarrow> w | Inl e \<Rightarrow> [])"

text \<open>
  The expression \<^verbatim>\<open>5 + 5*((M/x)-1)\<close> of a median \<open>M\<close> and a metric \<open>x\<close>; dividing by
  \<^verbatim>\<open>None\<close> raises.
\<close>

definition vs_median :: "real \<Rightarrow> pyval \<Rightarrow> error + fl" where
  "vs_median M x =
     (case x of
        None \<Rightarrow> Inl TypeError
      | Some v \<Rightarrow> ebind (fdiv (Fin M) v) (\<lambda>q. Inr (Fin 5 + Fin 5 * (q - Fin 1))))"

text \<open>
  \<^verbatim>\<open>scores["pe_vs_sector"] = zclip(5 + 5*((med["PE"]/pe)-1)) if (pe and med["PE"]) else np.nan\<close>
\<close>

definition pe_vs_sector_score :: "medians \<Rightarrow> pyval \<Rightarrow> error + fl" where
  "pe_vs_sector_score med x =
     (if truthy x \<and> PE med \<noteq> 0
      then ebind (vs_median (PE med) x) (\<lambda>v. Inr (zclip (Some v) 0 10))
      else Inr NaN)"

text \<open>
  \<^verbatim>\<open>scores["financial_health"] = zclip(10 - abs((pb or 3)-3)*2) if pb else np.nan\<close>
\<close>

definition financial_health_score :: "pyval \<Rightarrow> fl" where
  "financial_health_score x =
     (if truthy x then zclip (Some (Fin 10 - \<bar>py_or x (Fin 3) - Fin 3\<bar> * Fin 2)) 0 10
      else NaN)"

text \<open>
  \<^verbatim>\<open>
  comp=[]
  if pe and med["PE"]: comp.append(5+5*(med["PE"]/pe-1))
  if ps and med["PS"]: comp.append(5+5*(med["PS"]/ps-1))
  if pfcf and med["PFCF"]: comp.append(5+5*(med["PFCF"]/pfcf-1))
  scores["valuation"] = zclip(np.nanmean(comp) if comp else np.nan)
  \<close>
\<close>

definition comp_entry :: "real \<Rightarrow> pyval \<Rightarrow> error + fl list" where
  "comp_entry M x =
     (if truthy x \<and> M \<noteq> 0 then ebind (vs_median M x) (\<lambda>v. Inr [v]) else Inr [])"

definition valuation_score :: "medians \<Rightarrow> pyval \<Rightarrow> pyval \<Rightarrow> pyval \<Rightarrow> error + fl" where
  "valuation_score med x y z =
     ebind (comp_entry (PE med) x) (\<lambda>c1.
     ebind (comp_entry (PS med) y) (\<lambda>c2.
     ebind (comp_entry (PFCF med) z) (\<lambda>c3.
       let comp = c1 @ c2 @ c3
       in Inr (zclip (Some (if comp \<noteq> [] then nanmean comp else NaN)) 0 10))))"

text \<open>
  \<^verbatim>\<open>scores["growth"] = zclip(5 + np.nanmean([(r1 or 0)*10, (r3 or 0)*5]))\<close>
\<close>

definition growth_score :: "pyval \<Rightarrow> pyval \<Rightarrow> fl" where
  "growth_score r1 r3 =
     zclip (Some (Fin 5 + nanmean [py_or r1 (Fin 0) * Fin 10, py_or r3 (Fin 0) * Fin 5])) 0 10"

text \<open>
  \<^verbatim>\<open>
  beta = m.get("beta") or 1.0
  scores["risk"] = zclip(10 - abs(beta-1)*5)
  \<close>
\<close>

definition risk_score :: "pyval \<Rightarrow> fl" where
  "risk_score x =
     (let b = py_or x (Fin 1.0) in zclip (Some (Fin 10 - \<bar>b - Fin 1\<bar> * Fin 5)) 0 10)"

text \<open>
  \<^verbatim>\<open>scores["dividend"] = zclip((y*100/0.6) if y not in (None, np.nan) else np.nan)\<close>

  A NaN that is not the object \<^verbatim>\<open>np.nan\<close> passes the membership test and gives NaN
  through the arithmetic, which is the result of the other branch too.
\<close>

definition dividend_score :: "pyval \<Rightarrow> error + fl" where
  "dividend_score y =
     (case y of
        None \<Rightarrow> Inr (zclip (Some NaN) 0 10)
      | Some NaN \<Rightarrow> Inr (zclip (Some NaN) 0 10)
      | Some (Fin v) \<Rightarrow>
          ebind (fdiv (Fin v * Fin 100) (Fin 0.6)) (\<lambda>q. Inr (zclip (Some q) 0 10)))"

text \<open>
  The rationale strings \<^verbatim>\<open>exps\<close> are display text and are not modelled, except that
  formatting \<^verbatim>\<open>None\<close> as a percentage (\<^verbatim>\<open>f"{r1:.1%}"\<close>) raises.
\<close>

fun fmt_pct :: "pyval \<Rightarrow> error + unit" where
  "fmt_pct None = Inl TypeError"
| "fmt_pct (Some x) = Inr ()"

text \<open>
  \<^verbatim>\<open>round(x, 2)\<close>: to the nearest multiple of 0.01, a tie to the even one; NaN stays
  NaN.
\<close>

fun py_round2 :: "fl \<Rightarrow> fl" where
  "py_round2 NaN = NaN"
| "py_round2 (Fin x) =
     (let y = x * 100; f = \<lfloor>y\<rfloor>; d = y - of_int f
      in Fin (of_int (if d < 1/2 then f else if d > 1/2 then f + 1
                      else if even f then f else f + 1) / 100))"

text \<open>
  \<^verbatim>\<open>
  def score_stock(country, tkr, m):
      sector = m.get("sector") or "Default"
      med = SECTOR_MEDIANS.get(country, {}).get(sector, SECTOR_MEDIANS[country]["Default"])
      ...
      exps["growth"] = f"1Y {r1:.1%} / 3Y {r3:.1%}"
      scores["management"] = 6.0
      scores["moat"] = 6.0
      ...
      exps["dividend"] = f"Yield {y:.2%}" if y else "No dividend"
      w = renorm_weights({k:(STOCK_W[k] if not np.isnan(scores[k]) else 0) for k in STOCK_W})
      overall = sum(w[k]*scores[k] for k in STOCK_W if not np.isnan(scores[k]))
      return round(overall,2), scores, exps, sector
  \<close>
  The ticker \<^verbatim>\<open>tkr\<close> is not used. The result is the rounded overall score, the scores
  and the sector. \<open>derived_weights\<close> is the dict passed to \<^verbatim>\<open>renorm_weights\<close> in the
  line that computes \<open>w\<close>, with the test \<^verbatim>\<open>not np.isnan(scores[k])\<close> as \<open>avail\<close>;
  \<open>weighted_overall\<close> is that line and the next. The derived weights \<open>w\<close> have the keys
  of \<^verbatim>\<open>STOCK_W\<close> in the same order, so the sum runs over the entries of \<open>w\<close>.
\<close>

definition derived_weights :: "('k \<Rightarrow> bool) \<Rightarrow> ('k \<times> real) list \<Rightarrow> error + ('k \<times> real) list" where
  "derived_weights avail W =
     renorm_weights (map (\<lambda>(k, v). (k, Some (if avail k then v else 0))) W)"

text \<open>The derived weights as computed on doubles.\<close>

definition derived_weights_f64 ::
    "('k \<Rightarrow> bool) \<Rightarrow> ('k \<times> real) list \<Rightarrow> error + ('k \<times> real) list" where
  "derived_weights_f64 avail W =
     renorm_weights_f64 (map (\<lambda>(k, v). (k, Some (if avail k then v else 0))) W)"

definition weighted_overall :: "(factor \<Rightarrow> fl) \<Rightarrow> error + fl" where
  "weighted_overall scores =
     ebind (derived_weights (\<lambda>k. \<not> isnan (scores k)) STOCK_W) (\<lambda>w.
       Inr (foldl (+) (Fin 0)
              (map (\<lambda>(k, v). Fin v * scores k) (filter (\<lambda>(k, v). \<not> isnan (scores k)) w))))"

definition score_stock :: "country \<Rightarrow> metrics \<Rightarrow> error + (fl \<times> (factor \<Rightarrow> fl) \<times> string)" where
  "score_stock c m =
     (let sec = (case sector m of None \<Rightarrow> ''Default'' | Some s \<Rightarrow> if s = [] then ''Default'' else s)
      in
      ebind (lookup_medians c sec) (\<lambda>med.
      ebind (pe_vs_sector_score med (pe m)) (\<lambda>s_pe.
      ebind (valuation_score med (pe m) (ps m) (pfcf m)) (\<lambda>s_val.
      ebind (fmt_pct (r_1y m)) (\<lambda>_.
      ebind (fmt_pct (r_3y m)) (\<lambda>_.
      ebind (dividend_score (div_yield m)) (\<lambda>s_div.
      ebind (if truthy (div_yield m) then fmt_pct (div_yield m) else Inr ()) (\<lambda>_.
        let scores = (\<lambda>k. case k of
                pe_vs_sector \<Rightarrow> s_pe
              | financial_health \<Rightarrow> financial_health_score (pb m)
              | valuation \<Rightarrow> s_val
              | growth \<Rightarrow> growth_score (r_1y m) (r_3y m)
              | management \<Rightarrow> Fin 6.0
              | moat \<Rightarrow> Fin 6.0
              | risk \<Rightarrow> risk_score (beta m)
              | dividend \<Rightarrow> s_div)
        in
        ebind (weighted_overall scores) (\<lambda>overall.
          Inr (py_round2 overall, scores, sec))))))))))"

section \<open>Recommendation\<close>

text \<open>
  \<^verbatim>\<open>
  def reco(overall, buy_thr=8.0, hold_thr=6.0):
      return "Buy" if overall>=buy_thr else ("Hold" if overall>=hold_thr else "Sell/Avoid")
  \<close>
\<close>

definition reco :: "fl \<Rightarrow> fl \<Rightarrow> fl \<Rightarrow> string" where
  "reco overall buy_thr hold_thr =
     (if fge overall buy_thr then ''Buy''
      else if fge overall hold_thr then ''Hold'' else ''Sell/Avoid'')"

section \<open>Bundles\<close>

text \<open>
  \<open>fetched m\<close>: the two returns of the bundle are floats (possibly NaN), as
  \<^verbatim>\<open>fetch_yahoo\<close> stores them (it starts from \<^verbatim>\<open>r1 = r3 = np.nan\<close>), and not
  \<^verbatim>\<open>None\<close>.
\<close>

definition fetched :: "metrics \<Rightarrow> bool" where
  "fetched m = (r_1y m \<noteq> None \<and> r_3y m \<noteq> None)"

text \<open>
  The bundle of the end-to-end example: price/earnings 18, price/book 3.0, beta 1.0,
  dividend yield 0.02, returns 0.10 and 0.30, no sector, no price/sales and no
  price/free-cash-flow.
\<close>

definition example_bundle :: metrics where
  "example_bundle =
     \<lparr>sector = None, pe = Some (Fin 18), pb = Some (Fin 3.0), ps = None, pfcf = None,
      div_yield = Some (Fin 0.02), beta = Some (Fin 1.0),
      r_1y = Some (Fin 0.10), r_3y = Some (Fin 0.30)\<rparr>"


text \<open>A sub-score is undefined (NaN) or a number between 0 and 10.\<close>

abbreviation in_0_10 :: "fl \<Rightarrow> bool" where
  "in_0_10 s \<equiv> s = NaN \<or> (\<exists>v. s = Fin v \<and> 0 \<le> v \<and> v \<le> 10)"

section \<open>Evaluation lemmas\<close>

lemma STOCK_W_eq:
  "STOCK_W = [(pe_vs_sector, 0.125), (financial_health, 0.125), (valuation, 0.125),
      (growth, 0.125), (management, 0.125), (moat, 0.125), (risk, 0.125), (dividend, 0.125)]"
  by (simp add: STOCK_W_def STOCK_W_nominal_def renorm_weights_def)

lemma example_result:
  "\<exists>sc. score_stock US example_bundle = Inr (Fin 6.45, sc, ''Default'')
     \<and> sc pe_vs_sector = Fin 5 \<and> sc financial_health = Fin 10 \<and> sc valuation = Fin 5
     \<and> sc growth = Fin 6.25 \<and> sc management = Fin 6 \<and> sc moat = Fin 6
     \<and> sc risk = Fin 10 \<and> sc dividend = Fin (10 / 3)"
  by (simp add: score_stock_def example_bundle_def lookup_medians_def pe_vs_sector_score_def
      vs_median_def valuation_score_def comp_entry_def nanmean_def dividend_score_def
      STOCK_W_eq renorm_weights_def derived_weights_def weighted_overall_def
      growth_score_def risk_score_def financial_health_score_def Let_def)

section \<open>Weight renormalisation\<close>

lemma renorm_entries_Some:
  "renorm_entries s (map (\<lambda>(k, v). (k, Some (g k v))) W) =
     Inr (map (\<lambda>(k, v). (k, if s > 0 then g k v / s else 0)) W)"
  by (induction W) (auto)

lemma sum_Some_values:
  "sum_list (concat (map (\<lambda>(k, v). case v of None \<Rightarrow> [] | Some x \<Rightarrow> [x])
                      (map (\<lambda>(k, v). (k, Some (g k v))) W))) =
     sum_list (map (\<lambda>(k, v). g k v) W)"
  by (induction W) auto

lemma derived_weights_eq:
  "derived_weights avail W =
     Inr (map (\<lambda>(k, v). (k, if sum_list (map (\<lambda>(k, v). if avail k then v else 0) W) > 0
                              then (if avail k then v else 0)
                                     / sum_list (map (\<lambda>(k, v). if avail k then v else 0) W)
                              else 0)) W)"
  unfolding derived_weights_def renorm_weights_def
  by (simp only: sum_Some_values renorm_entries_Some)

lemma avail_sum_pos:
  "\<forall>(k, v) \<in> set W. 0 \<le> (v :: real) \<Longrightarrow> \<exists>(k, v) \<in> set W. avail k \<and> 0 < v \<Longrightarrow>
     0 < sum_list (map (\<lambda>(k, v). if avail k then v else 0) W)"
proof (induction W)
  case Nil
  then show ?case by simp
next
  case (Cons a W)
  have nn: "0 \<le> sum_list (map (\<lambda>(k, v). if avail k then v else 0) W)"
    using Cons.prems(1) by (intro sum_list_nonneg) auto
  show ?case
  proof (cases "\<exists>(k, v) \<in> set W. avail k \<and> 0 < v")
    case True
    then have "0 < sum_list (map (\<lambda>(k, v). if avail k then v else 0) W)"
      using Cons by auto
    moreover have "0 \<le> (case a of (k, v) \<Rightarrow> if avail k then v else 0)"
      using Cons.prems(1) by (cases a) auto
    ultimately show ?thesis by simp
  next
    case False
    then have "(case a of (k, v) \<Rightarrow> avail k \<and> 0 < v)"
      using Cons.prems(2) by auto
    then have "0 < (case a of (k, v) \<Rightarrow> if avail k then v else 0)"
      by (cases a) auto
    then show ?thesis using nn by simp
  qed
qed

section \<open>Ranges of the sub-scores and of the overall score\<close>

lemma ebind_Inr_iff: "ebind x f = Inr y \<longleftrightarrow> (\<exists>a. x = Inr a \<and> f a = Inr y)"
  by (cases x) auto

lemma zclip_in_range: "in_0_10 (zclip x 0 10)"
  by (cases x rule: truthy.cases) auto

lemma vs_median_truthy: "truthy x \<Longrightarrow> \<exists>v. vs_median M x = Inr v"
  by (cases x rule: truthy.cases) (auto simp: vs_median_def)

lemma pe_vs_sector_ok: "\<exists>s. pe_vs_sector_score med x = Inr s \<and> in_0_10 s"
proof (cases "truthy x \<and> PE med \<noteq> 0")
  case True
  then obtain v where "vs_median (PE med) x = Inr v"
    using vs_median_truthy by blast
  then show ?thesis
    using True zclip_in_range [of "Some v"] by (simp add: pe_vs_sector_score_def)
next
  case False
  then show ?thesis by (auto simp: pe_vs_sector_score_def)
qed

lemma comp_entry_ok: "\<exists>vs. comp_entry M x = Inr vs"
proof (cases "truthy x \<and> M \<noteq> 0")
  case True
  then obtain v where "vs_median M x = Inr v"
    using vs_median_truthy by blast
  then show ?thesis using True by (simp add: comp_entry_def)
next
  case False
  then show ?thesis by (auto simp: comp_entry_def)
qed

lemma valuation_ok: "\<exists>s. valuation_score med x y z = Inr s \<and> in_0_10 s"
proof -
  obtain c1 c2 c3 where "comp_entry (PE med) x = Inr c1" "comp_entry (PS med) y = Inr c2"
      "comp_entry (PFCF med) z = Inr c3"
    using comp_entry_ok by meson
  then show ?thesis
    using zclip_in_range by (simp add: valuation_score_def Let_def)
qed

lemma dividend_ok: "\<exists>s. dividend_score y = Inr s \<and> in_0_10 s"
  by (cases y rule: truthy.cases) (auto simp: dividend_score_def)

lemma financial_health_ok: "in_0_10 (financial_health_score x)"
  unfolding financial_health_score_def using zclip_in_range by simp

lemma growth_ok: "in_0_10 (growth_score x y)"
  unfolding growth_score_def using zclip_in_range by simp

lemma risk_ok: "in_0_10 (risk_score x)"
  unfolding risk_score_def Let_def using zclip_in_range by simp

lemma lookup_medians_ok: "\<exists>med. lookup_medians c sec = Inr med"
  by (cases c) (simp_all add: lookup_medians_def)

lemma fmt_dividend_ok: "(if truthy y then fmt_pct y else Inr ()) = Inr ()"
  by (cases y rule: truthy.cases) auto

lemma foldl_weighted:
  "\<forall>(k, v) \<in> set w. 0 \<le> v \<Longrightarrow> \<forall>k. in_0_10 (sc k) \<Longrightarrow>
   \<exists>t. foldl (+) (Fin a) (map (\<lambda>(k, v). Fin v * sc k) (filter (\<lambda>(k, v). \<not> isnan (sc k)) w)) = Fin t
     \<and> a \<le> t \<and> t \<le> a + 10 * sum_list (map snd (filter (\<lambda>(k, v). \<not> isnan (sc k)) w))"
proof (induction w arbitrary: a)
  case Nil
  then show ?case by simp
next
  case (Cons p w)
  obtain k v where p: "p = (k, v)" by (cases p)
  have v: "0 \<le> v" using Cons.prems(1) p by auto
  show ?case
  proof (cases "sc k")
    case NaN
    then show ?thesis using Cons p by simp
  next
    case (Fin x)
    then have x: "0 \<le> x" "x \<le> 10" using Cons.prems(2) [rule_format, of k] by auto
    obtain t where t: "foldl (+) (Fin (a + v * x))
          (map (\<lambda>(k, v). Fin v * sc k) (filter (\<lambda>(k, v). \<not> isnan (sc k)) w)) = Fin t"
        "a + v * x \<le> t"
        "t \<le> a + v * x + 10 * sum_list (map snd (filter (\<lambda>(k, v). \<not> isnan (sc k)) w))"
      using Cons.IH [of "a + v * x"] Cons.prems by auto
    have "0 \<le> v * x" using v x by simp
    moreover have "v * x \<le> v * 10" using v x by (simp add: mult_left_mono)
    ultimately show ?thesis using t Fin p by (auto intro!: exI [of _ t])
  qed
qed

lemma sum_available_renormed:
  "0 < s \<Longrightarrow>
   sum_list (map snd (filter (\<lambda>(k, v). avail k)
       (map (\<lambda>(k, v). (k, if s > 0 then (if avail k then v else 0 :: real) / s else 0)) W))) =
     sum_list (map (\<lambda>(k, v). if avail k then v else 0) W) / s"
  by (induction W) (auto simp: add_divide_distrib)

lemma weighted_overall_ok:
  assumes r: "\<forall>k. in_0_10 (sc k)" and m: "sc management = Fin 6"
  shows "\<exists>t. weighted_overall sc = Inr (Fin t) \<and> 0 \<le> t \<and> t \<le> 10"
proof -
  define avail where "avail = (\<lambda>k. \<not> isnan (sc k))"
  define s where "s = sum_list (map (\<lambda>(k, v). if avail k then v else 0) STOCK_W)"
  define w where
    "w = map (\<lambda>(k, v). (k, if s > 0 then (if avail k then v else 0) / s else 0)) STOCK_W"
  have nn: "\<forall>(k, v) \<in> set STOCK_W. 0 \<le> v" by (simp add: STOCK_W_eq)
  have "\<exists>(k, v) \<in> set STOCK_W. avail k \<and> 0 < v"
    using m by (auto simp: STOCK_W_eq avail_def)
  then have s: "0 < s" unfolding s_def using nn avail_sum_pos by blast
  have e: "derived_weights avail STOCK_W = Inr w"
    unfolding w_def s_def by (rule derived_weights_eq)
  have wn: "\<forall>(k, v) \<in> set w. 0 \<le> v"
    unfolding w_def using nn s by auto
  have "sum_list (map snd (filter (\<lambda>(k, v). avail k) w)) = s / s"
    unfolding w_def using sum_available_renormed [OF s, of avail STOCK_W] by (simp only: s_def)
  then have one: "sum_list (map snd (filter (\<lambda>(k, v). \<not> isnan (sc k)) w)) = 1"
    using s by (simp add: avail_def)
  obtain t where "foldl (+) (Fin 0)
        (map (\<lambda>(k, v). Fin v * sc k) (filter (\<lambda>(k, v). \<not> isnan (sc k)) w)) = Fin t"
      "0 \<le> t" "t \<le> 0 + 10 * sum_list (map snd (filter (\<lambda>(k, v). \<not> isnan (sc k)) w))"
    using foldl_weighted [OF wn r, of 0] by blast
  then show ?thesis
    using e one by (auto simp: weighted_overall_def avail_def)
qed

lemma py_round2_range:
  assumes "0 \<le> t" "t \<le> 10"
  shows "\<exists>r. py_round2 (Fin t) = Fin r \<and> 0 \<le> r \<and> r \<le> 10"
proof -
  define f where "f = \<lfloor>t * 100\<rfloor>"
  define g where "g = (if t * 100 - of_int f < 1 / 2 then f
                       else if t * 100 - of_int f > 1 / 2 then f + 1
                       else if even f then f else f + 1)"
  have f0: "0 \<le> f" unfolding f_def using assms by simp
  have f1: "f \<le> 1000" unfolding f_def using assms by (simp add: floor_le_iff)
  have f2: "f + 1 \<le> 1000" if "\<not> t * 100 - of_int f < 1 / 2"
  proof -
    have "of_int f < (1000 :: real)" using that assms by linarith
    then show ?thesis by linarith
  qed
  have g: "0 \<le> g" "g \<le> 1000"
    unfolding g_def using f0 f1 f2 by auto
  have "py_round2 (Fin t) = Fin (of_int g / 100)"
    by (simp add: Let_def f_def g_def)
  moreover have "0 \<le> (of_int g / 100 :: real)" "(of_int g / 100 :: real) \<le> 10"
    using g by simp_all
  ultimately show ?thesis by blast
qed

lemma score_stock_Inr:
  assumes "score_stock c m = Inr (ov, sc, sec)"
  shows "(\<forall>k. in_0_10 (sc k)) \<and> sc management = Fin 6 \<and> sc moat = Fin 6
     \<and> (\<exists>t. weighted_overall sc = Inr t \<and> ov = py_round2 t)"
proof -
  define sec0 where
    "sec0 = (case sector m of None \<Rightarrow> ''Default'' | Some s \<Rightarrow> if s = [] then ''Default'' else s)"
  obtain med s_pe s_val s_div t where
    h: "lookup_medians c sec0 = Inr med" "pe_vs_sector_score med (pe m) = Inr s_pe"
       "valuation_score med (pe m) (ps m) (pfcf m) = Inr s_val"
       "dividend_score (div_yield m) = Inr s_div"
       "sc = (\<lambda>k. case k of
                pe_vs_sector \<Rightarrow> s_pe
              | financial_health \<Rightarrow> financial_health_score (pb m)
              | valuation \<Rightarrow> s_val
              | growth \<Rightarrow> growth_score (r_1y m) (r_3y m)
              | management \<Rightarrow> Fin 6
              | moat \<Rightarrow> Fin 6
              | risk \<Rightarrow> risk_score (beta m)
              | dividend \<Rightarrow> s_div)"
       "weighted_overall sc = Inr t" "ov = py_round2 t"
    using assms unfolding score_stock_def Let_def sec0_def [symmetric]
    by (auto simp: ebind_Inr_iff)
  have "in_0_10 s_pe" using pe_vs_sector_ok [of med "pe m"] h(2) by simp
  moreover have "in_0_10 s_val" using valuation_ok [of med "pe m" "ps m" "pfcf m"] h(3) by simp
  moreover have "in_0_10 s_div" using dividend_ok [of "div_yield m"] h(4) by simp
  ultimately have "in_0_10 (sc k)" for k
    using financial_health_ok growth_ok risk_ok by (cases k) (simp_all add: h(5))
  then show ?thesis using h(6,7) by (simp add: h(5))
qed

lemma score_stock_fetched:
  assumes "fetched m"
  shows "\<exists>ov sc sec. score_stock c m = Inr (ov, sc, sec)"
proof -
  define sec0 where
    "sec0 = (case sector m of None \<Rightarrow> ''Default'' | Some s \<Rightarrow> if s = [] then ''Default'' else s)"
  obtain med where 1: "lookup_medians c sec0 = Inr med" using lookup_medians_ok by blast
  obtain s_pe where 2: "pe_vs_sector_score med (pe m) = Inr s_pe" "in_0_10 s_pe"
    using pe_vs_sector_ok by blast
  obtain s_val where 3: "valuation_score med (pe m) (ps m) (pfcf m) = Inr s_val" "in_0_10 s_val"
    using valuation_ok by blast
  obtain s_div where 4: "dividend_score (div_yield m) = Inr s_div" "in_0_10 s_div"
    using dividend_ok by blast
  have 5: "fmt_pct (r_1y m) = Inr ()" "fmt_pct (r_3y m) = Inr ()"
    using assms by (auto simp: fetched_def)
  define sc where "sc = (\<lambda>k. case k of
                pe_vs_sector \<Rightarrow> s_pe
              | financial_health \<Rightarrow> financial_health_score (pb m)
              | valuation \<Rightarrow> s_val
              | growth \<Rightarrow> growth_score (r_1y m) (r_3y m)
              | management \<Rightarrow> Fin 6
              | moat \<Rightarrow> Fin 6
              | risk \<Rightarrow> risk_score (beta m)
              | dividend \<Rightarrow> s_div)"
  have "in_0_10 (sc k)" for k
    using 2(2) 3(2) 4(2) financial_health_ok growth_ok risk_ok by (cases k) (simp_all add: sc_def)
  moreover have "sc management = Fin 6" by (simp add: sc_def)
  ultimately obtain t where 6: "weighted_overall sc = Inr (Fin t)"
    using weighted_overall_ok by blast
  show ?thesis
    unfolding score_stock_def Let_def sec0_def [symmetric]
    using 1 2(1) 3(1) 4(1) 5 6 by (simp add: fmt_dividend_ok sc_def [symmetric])
qed


lemma overall_in_range:
  assumes f: "fetched m"
  shows "\<exists>v sc sec. score_stock c m = Inr (Fin v, sc, sec) \<and> 0 \<le> v \<and> v \<le> 10
           \<and> sc management = Fin 6 \<and> sc moat = Fin 6"
proof -
  obtain ov sc sec where r: "score_stock c m = Inr (ov, sc, sec)"
    using score_stock_fetched [OF f] by blast
  then obtain t where s: "\<forall>k. in_0_10 (sc k)" "sc management = Fin 6" "sc moat = Fin 6"
      "weighted_overall sc = Inr t" "ov = py_round2 t"
    using score_stock_Inr by blast
  obtain u where u: "t = Fin u" "0 \<le> u" "u \<le> 10"
    using weighted_overall_ok [OF s(1,2)] s(4) by auto
  obtain v where v: "ov = Fin v" "0 \<le> v" "v \<le> 10"
    using py_round2_range [OF u(2,3)] s(5) u(1) by auto
  show ?thesis
    using r v s(2,3) by blast
qed

section \<open>Rounding to doubles\<close>

lemma bit_length_bounds:
  "0 < n \<Longrightarrow> 2 ^ (bit_length n - 1) \<le> n \<and> n < 2 ^ bit_length n"
proof (induction n rule: bit_length.induct)
  case (1 n)
  show ?case
  proof (cases "n div 2 = 0")
    case True
    then have "n = 1" using "1.prems" by presburger
    then show ?thesis by (simp add: bit_length.simps)
  next
    case False
    then have ih: "2 ^ (bit_length (n div 2) - 1) \<le> n div 2" "n div 2 < 2 ^ bit_length (n div 2)"
      using "1.IH" "1.prems" by auto
    have pos: "0 < bit_length (n div 2)"
      using False by (simp add: bit_length.simps [of "n div 2"])
    have b: "bit_length n = Suc (bit_length (n div 2))"
      using "1.prems" by (simp add: bit_length.simps [of n])
    have "2 ^ (bit_length n - 1) = 2 * 2 ^ (bit_length (n div 2) - 1)"
      using pos b by (cases "bit_length (n div 2)") simp_all
    also have "\<dots> \<le> 2 * (n div 2)" using ih(1) by simp
    also have "\<dots> \<le> n" by presburger
    finally have lo: "2 ^ (bit_length n - 1) \<le> n" .
    have "n < 2 * (n div 2) + 2" by presburger
    also have "\<dots> \<le> 2 * 2 ^ bit_length (n div 2)" using ih(2) by simp
    finally have "n < 2 ^ bit_length n" using b by simp
    then show ?thesis using lo by simp
  qed
qed

lemma ilog2_bounds:
  assumes "0 < x"
  shows "2 powi (ilog2 x) \<le> x \<and> x < 2 powi (ilog2 x + 1)"
proof (cases "1 \<le> x")
  case True
  define n where "n = nat \<lfloor>x\<rfloor>"
  have n: "0 < n" "real n \<le> x" "x < real n + 1"
    unfolding n_def using True by (auto simp: of_nat_nat)
  have b: "2 ^ (bit_length n - 1) \<le> n" "n < 2 ^ bit_length n"
    using bit_length_bounds [OF n(1)] by auto
  have pos: "0 < bit_length n" using n(1) by (simp add: bit_length.simps [of n])
  have k: "ilog2 x = int (bit_length n - 1)" "ilog2 x + 1 = int (bit_length n)"
    using True pos by (auto simp: ilog2_def n_def)
  have "real (2 ^ (bit_length n - 1)) \<le> real n"
    using b(1) by (simp only: of_nat_le_iff)
  then have "(2::real) ^ (bit_length n - 1) \<le> real n"
    by simp
  then have "(2::real) ^ (bit_length n - 1) \<le> x" using n(2) by linarith
  then have lo: "2 powi (ilog2 x) \<le> x" by (simp add: k(1) power_int_def)
  have "n + 1 \<le> 2 ^ bit_length n" using b(2) by simp
  then have "real (n + 1) \<le> real (2 ^ bit_length n)"
    by (simp only: of_nat_le_iff)
  then have "real n + 1 \<le> 2 ^ bit_length n"
    by simp
  then have "x < (2::real) ^ bit_length n" using n(3) by linarith
  then have "x < 2 powi (ilog2 x + 1)" by (simp add: k(2) power_int_def)
  then show ?thesis using lo by simp
next
  case False
  define c where "c = \<lceil>1 / x\<rceil>"
  define n where "n = nat (c - 1)"
  have y: "1 < 1 / x" using False assms by simp
  have c: "2 \<le> c" "real_of_int c - 1 < 1 / x" "1 / x \<le> real_of_int c"
    unfolding c_def using y by (auto simp: le_ceiling_iff) linarith+
  have n: "0 < n" "real n = real_of_int c - 1"
    unfolding n_def using c(1) by auto
  have b: "2 ^ (bit_length n - 1) \<le> n" "n < 2 ^ bit_length n"
    using bit_length_bounds [OF n(1)] by auto
  have pos: "0 < bit_length n" using n(1) by (simp add: bit_length.simps [of n])
  have k: "ilog2 x = - int (bit_length n)"
    using False by (simp add: ilog2_def n_def c_def)
  have "real (2 ^ (bit_length n - 1)) \<le> real n"
    using b(1) by (simp only: of_nat_le_iff)
  then have "(2::real) ^ (bit_length n - 1) \<le> real n"
    by simp
  then have y1: "2 ^ (bit_length n - 1) < 1 / x" using n(2) c(2) by linarith
  have "n + 1 \<le> 2 ^ bit_length n" using b(2) by simp
  then have "real (n + 1) \<le> real (2 ^ bit_length n)"
    by (simp only: of_nat_le_iff)
  then have "real n + 1 \<le> 2 ^ bit_length n"
    by simp
  then have y2: "1 / x \<le> 2 ^ bit_length n" using n(2) c(3) by linarith
  have lo: "2 powi (ilog2 x) \<le> x"
  proof -
    have "1 \<le> x * 2 ^ bit_length n"
      using y2 assms by (simp add: field_simps)
    then show ?thesis
      by (simp add: k power_int_minus field_simps)
  qed
  have hi: "x < 2 powi (ilog2 x + 1)"
  proof -
    have "x * 2 ^ (bit_length n - 1) < 1"
      using y1 assms by (simp add: field_simps)
    moreover have "ilog2 x + 1 = - int (bit_length n - 1)"
      using k pos by auto
    ultimately show ?thesis
      by (simp add: power_int_minus field_simps)
  qed
  show ?thesis using lo hi by simp
qed

lemma round_half_even_error: "\<bar>of_int (round_half_even y) - y\<bar> \<le> 1 / 2"
  unfolding round_half_even_def Let_def by (auto; linarith)

lemma round_f64_error: "\<bar>round_f64 x - x\<bar> \<le> \<bar>x\<bar> / 2 ^ 53"
proof (cases "x = 0")
  case True
  then show ?thesis by (simp add: round_f64_def)
next
  case False
  define e where "e = ilog2 \<bar>x\<bar> - 52"
  define p where "p = (2::real) powi e"
  define m where "m = x / p"
  have p: "0 < p" unfolding p_def by simp
  have lo: "2 powi (e + 52) \<le> \<bar>x\<bar>"
    using ilog2_bounds [of "\<bar>x\<bar>"] False by (simp add: e_def)
  have "(2::real) powi (e + 52) = p * 2 ^ 52"
    unfolding p_def by (simp add: power_int_add)
  then have big: "p * 2 ^ 52 \<le> \<bar>x\<bar>" using lo by simp
  have r: "round_f64 x = of_int (round_half_even m) * p"
    using False by (simp add: round_f64_def Let_def e_def p_def m_def)
  have "round_f64 x - x = (of_int (round_half_even m) - m) * p"
    using p by (simp add: r m_def field_simps)
  then have "\<bar>round_f64 x - x\<bar> = \<bar>of_int (round_half_even m) - m\<bar> * p"
    using p by (simp add: abs_mult)
  also have "\<dots> \<le> 1 / 2 * p"
    using round_half_even_error [of m] p by (simp add: mult_right_mono)
  also have "\<dots> \<le> \<bar>x\<bar> / 2 ^ 53"
    using big by simp
  finally show ?thesis .
qed

lemma round_f64_nonneg:
  assumes "0 \<le> x"
  shows "x * (1 - u64) \<le> round_f64 x \<and> round_f64 x \<le> x * (1 + u64)"
proof -
  have "\<bar>round_f64 x - x\<bar> \<le> x * u64"
    using round_f64_error [of x] assms by (simp add: u64_def)
  then have "x - x * u64 \<le> round_f64 x" "round_f64 x \<le> x + x * u64"
    by linarith+
  then show ?thesis
    by (simp add: algebra_simps)
qed

lemma foldl_f64_bounds:
  "0 \<le> a \<Longrightarrow> \<forall>v \<in> set xs. 0 \<le> v \<Longrightarrow>
   (a + sum_list xs) * (1 - u64) ^ length xs \<le> foldl (\<lambda>a v. round_f64 (a + v)) a xs
   \<and> foldl (\<lambda>a v. round_f64 (a + v)) a xs \<le> (a + sum_list xs) * (1 + u64) ^ length xs"
proof (induction xs arbitrary: a)
  case Nil
  then show ?case by simp
next
  case (Cons x xs)
  define u :: real where "u = u64"
  define b where "b = round_f64 (a + x)"
  define S where "S = sum_list xs"
  define F where "F = foldl (\<lambda>a v. round_f64 (a + v)) b xs"
  have u: "0 \<le> u" "u \<le> 1" unfolding u_def u64_def by simp_all
  have x: "0 \<le> x" and xs: "\<forall>v \<in> set xs. 0 \<le> v" using Cons.prems(2) by auto
  have S: "0 \<le> S" unfolding S_def using xs by (simp add: sum_list_nonneg)
  have ax: "0 \<le> a + x" using Cons.prems(1) x by simp
  have b: "(a + x) * (1 - u) \<le> b" "b \<le> (a + x) * (1 + u)"
    unfolding b_def u_def using round_f64_nonneg [OF ax] by auto
  have "0 \<le> (a + x) * (1 - u)" using ax u by simp
  then have b0: "0 \<le> b" using b(1) by linarith
  have Su: "0 \<le> S * u" using S u by simp
  have ih: "(b + S) * (1 - u) ^ length xs \<le> F" "F \<le> (b + S) * (1 + u) ^ length xs"
    unfolding F_def S_def u_def using Cons.IH [OF b0 xs] by auto
  have "(a + x + S) * (1 - u) = (a + x) * (1 - u) + S - S * u"
    by (simp add: algebra_simps)
  then have "(a + x + S) * (1 - u) \<le> b + S"
    using b(1) Su by linarith
  then have "(a + x + S) * (1 - u) * (1 - u) ^ length xs \<le> (b + S) * (1 - u) ^ length xs"
    using u by (intro mult_right_mono) simp_all
  then have lo: "(a + x + S) * (1 - u) ^ Suc (length xs) \<le> F"
    using ih(1) by (simp add: mult.assoc)
  have "(a + x + S) * (1 + u) = (a + x) * (1 + u) + S + S * u"
    by (simp add: algebra_simps)
  then have "b + S \<le> (a + x + S) * (1 + u)"
    using b(2) Su by linarith
  then have "(b + S) * (1 + u) ^ length xs \<le> (a + x + S) * (1 + u) * (1 + u) ^ length xs"
    using u by (intro mult_right_mono) simp_all
  then have hi: "F \<le> (a + x + S) * (1 + u) ^ Suc (length xs)"
    using ih(2) by (simp add: mult.assoc)
  show ?case
    using lo hi by (simp add: F_def b_def S_def u_def add.assoc)
qed

lemma sum_f64_bounds:
  assumes "\<forall>v \<in> set xs. 0 \<le> v"
  shows "sum_list xs * (1 - u64) ^ length xs \<le> sum_f64 xs"
    and "sum_f64 xs \<le> sum_list xs * (1 + u64) ^ length xs"
proof -
  have "(0 + sum_list xs) * (1 - u64) ^ length xs \<le> foldl (\<lambda>a v. round_f64 (a + v)) 0 xs
    \<and> foldl (\<lambda>a v. round_f64 (a + v)) 0 xs \<le> (0 + sum_list xs) * (1 + u64) ^ length xs"
    by (rule foldl_f64_bounds) (simp_all add: assms)
  then show "sum_list xs * (1 - u64) ^ length xs \<le> sum_f64 xs"
    and "sum_f64 xs \<le> sum_list xs * (1 + u64) ^ length xs"
    unfolding sum_f64_def by (simp_all only: add_0_left)
qed

lemma quotients_f64_bounds:
  "0 < s \<Longrightarrow> \<forall>v \<in> set xs. 0 \<le> v \<Longrightarrow>
   sum_list xs / s * (1 - u64) \<le> sum_list (map (\<lambda>v. round_f64 (v / s)) xs)
   \<and> sum_list (map (\<lambda>v. round_f64 (v / s)) xs) \<le> sum_list xs / s * (1 + u64)"
proof (induction xs)
  case Nil
  then show ?case by simp
next
  case (Cons x xs)
  have "0 \<le> x / s" using Cons.prems by simp
  then have "x / s * (1 - u64) \<le> round_f64 (x / s)"
      "round_f64 (x / s) \<le> x / s * (1 + u64)"
    using round_f64_nonneg [of "x / s"] by simp_all
  moreover have "sum_list xs / s * (1 - u64) \<le> sum_list (map (\<lambda>v. round_f64 (v / s)) xs)"
      "sum_list (map (\<lambda>v. round_f64 (v / s)) xs) \<le> sum_list xs / s * (1 + u64)"
    using Cons by auto
  ultimately show ?case
    by (simp add: add_divide_distrib distrib_right)
qed

lemma renormalised_sum_near_one:
  fixes S s T u :: real and n :: nat
  assumes S: "0 < S" and u: "0 \<le> u" "u \<le> 1 / 2" and nu: "real n * u \<le> 1 / 2"
    and s1: "S * (1 - u) ^ n \<le> s" and s2: "s \<le> S * (1 + u) ^ n"
    and t1: "S / s * (1 - u) \<le> T" and t2: "T \<le> S / s * (1 + u)"
  shows "\<bar>T - 1\<bar> \<le> 2 * (real n + 1) * u"
proof -
  define a where "a = real n * u"
  define pl where "pl = (1 - u) ^ n"
  define ph where "ph = (1 + u) ^ n"
  define q where "q = S / s"
  have a: "0 \<le> a" "a \<le> 1 / 2" unfolding a_def using u nu by simp_all
  have "1 + real n * (- u) \<le> (1 + (- u)) ^ n"
    using u by (intro Bernoulli_inequality) simp
  then have pl: "1 - a \<le> pl" by (simp add: pl_def a_def)
  then have pl0: "0 < pl" using a by linarith
  have ph0: "0 < ph" unfolding ph_def using u by (intro zero_less_power) simp
  have "pl * ph = ((1 - u) * (1 + u)) ^ n"
    by (simp add: pl_def ph_def power_mult_distrib)
  also have "\<dots> \<le> 1"
  proof (rule power_le_one)
    show "0 \<le> (1 - u) * (1 + u)" using u by simp
    have "(1 - u) * (1 + u) = 1 - u * u" by (simp add: algebra_simps)
    then show "(1 - u) * (1 + u) \<le> 1" using u by simp
  qed
  finally have plph: "pl * ph \<le> 1" .
  have "0 < S * pl" using S pl0 by simp
  then have s0: "0 < s" using s1 unfolding pl_def [symmetric] by linarith
  have q0: "0 < q" unfolding q_def using S s0 by simp
  have "q * pl \<le> 1"
  proof -
    have "q * pl = S * pl / s" by (simp add: q_def)
    also have "\<dots> \<le> 1" using s1 s0 by (simp add: pl_def)
    finally show ?thesis .
  qed
  moreover have "q * (1 - a) \<le> q * pl"
    using pl q0 by (intro mult_left_mono) simp_all
  ultimately have "q * (1 - a) \<le> 1" by linarith
  then have qhi: "q \<le> 1 / (1 - a)"
    using a by (simp add: field_simps)
  have "1 \<le> q * ph"
  proof -
    have "q * ph = S * ph / s" by (simp add: q_def)
    moreover have "1 \<le> S * ph / s" using s2 s0 by (simp add: ph_def)
    ultimately show ?thesis by simp
  qed
  then have "pl \<le> q * ph * pl"
    using pl0 by (simp add: mult_le_cancel_right1)
  also have "\<dots> = q * (pl * ph)" by simp
  also have "\<dots> \<le> q * 1" using plph q0 by (intro mult_left_mono) simp_all
  finally have qlo: "1 - a \<le> q" using pl by simp
  have up: "T \<le> 1 + 2 * (real n + 1) * u"
  proof -
    have "T \<le> q * (1 + u)" using t2 by (simp add: q_def)
    also have "\<dots> \<le> 1 / (1 - a) * (1 + u)"
      using qhi u by (intro mult_right_mono) simp_all
    finally have T: "T \<le> (1 + u) / (1 - a)" by simp
    have "(1 + 2 * (real n + 1) * u) * (1 - a) - (1 + u) = (real n + 1) * u * (1 - 2 * a)"
      by (simp add: a_def algebra_simps)
    moreover have "0 \<le> (real n + 1) * u * (1 - 2 * a)"
      using u a by (intro mult_nonneg_nonneg) simp_all
    ultimately have "1 + u \<le> (1 + 2 * (real n + 1) * u) * (1 - a)" by linarith
    then have "(1 + u) / (1 - a) \<le> 1 + 2 * (real n + 1) * u"
      using a by (simp add: field_simps)
    then show ?thesis using T by linarith
  qed
  have lo: "1 - (real n + 1) * u \<le> T"
  proof -
    have "(1 - a) * (1 - u) \<le> q * (1 - u)"
      using qlo u by (intro mult_right_mono) simp_all
    then have "(1 - a) * (1 - u) \<le> T" using t1 by (simp add: q_def)
    moreover have "(1 - a) * (1 - u) = 1 - (real n + 1) * u + a * u"
      by (simp add: a_def algebra_simps)
    moreover have "0 \<le> a * u" using a u by simp
    ultimately show ?thesis by linarith
  qed
  have "0 \<le> (real n + 1) * u" using u by simp
  then show ?thesis using up lo by (simp add: abs_le_iff algebra_simps)
qed

lemma round_f64_zero: "round_f64 0 = 0"
  by (simp add: round_f64_def)

lemma sum_f64_zeros: "\<forall>v \<in> set xs. v = 0 \<Longrightarrow> sum_f64 xs = 0"
  unfolding sum_f64_def by (induction xs) (simp_all add: round_f64_zero)

lemma renorm_entries_f64_Some:
  "renorm_entries_f64 s (map (\<lambda>(k, v). (k, Some (g k v))) W) =
     Inr (map (\<lambda>(k, v). (k, if s > 0 then round_f64 (g k v / s) else 0)) W)"
  by (induction W) (auto)

lemma Some_values_list:
  "concat (map (\<lambda>(k, v). case v of None \<Rightarrow> [] | Some x \<Rightarrow> [x])
             (map (\<lambda>(k, v). (k, Some (g k v))) W)) = map (\<lambda>(k, v). g k v) W"
  by (induction W) auto

lemma derived_weights_f64_eq:
  "derived_weights_f64 avail W =
     Inr (map (\<lambda>(k, v). (k, if sum_f64 (map (\<lambda>(k, v). if avail k then v else 0) W) > 0
                              then round_f64 ((if avail k then v else 0)
                                     / sum_f64 (map (\<lambda>(k, v). if avail k then v else 0) W))
                              else 0)) W)"
  unfolding derived_weights_f64_def renorm_weights_f64_def
  by (simp only: Some_values_list renorm_entries_f64_Some)

section \<open>Properties\<close>

text \<open>
  C1. The end-to-end example: for the US market and the example bundle (no sector, so
  the Default medians with price/earnings 18) the sub-scores are pe_vs_sector 5,
  financial_health 10, risk 10, dividend \<open>0.02 * 100 / 0.6\<close> (3.33 to two decimals),
  growth 6.25, management 6, moat 6 and valuation 5; every derived weight is 0.125; the
  overall score is the mean of the eight sub-scores, which rounds to 6.45, and the
  classifier with the thresholds 8 and 6 answers Hold.
\<close>

theorem end_to_end_example:
  "\<exists>sc. score_stock US example_bundle = Inr (Fin 6.45, sc, ''Default'')
     \<and> lookup_medians US ''Default'' = Inr \<lparr>PE = 18, EVEBITDA = 12, PS = 2.0, PFCF = 18\<rparr>
     \<and> sc pe_vs_sector = Fin 5.0 \<and> sc financial_health = Fin 10.0 \<and> sc risk = Fin 10.0
     \<and> sc dividend = Fin (0.02 * 100 / 0.6) \<and> \<bar>0.02 * 100 / 0.6 - 3.33\<bar> < (0.005 :: real)
     \<and> sc growth = Fin 6.25 \<and> sc management = Fin 6.0 \<and> sc moat = Fin 6.0
     \<and> sc valuation = Fin 5.0
     \<and> derived_weights (\<lambda>k. \<not> isnan (sc k)) STOCK_W = Inr (map (\<lambda>(k, v). (k, 0.125)) STOCK_W)
     \<and> weighted_overall sc =
         Inr (Fin ((5.0 + 10.0 + 5.0 + 6.25 + 6.0 + 6.0 + 10.0 + 0.02 * 100 / 0.6) / 8))
     \<and> \<bar>(5.0 + 10.0 + 5.0 + 6.25 + 6.0 + 6.0 + 10.0 + 0.02 * 100 / 0.6) / 8 - 6.45\<bar>
         < (0.005 :: real)
     \<and> reco (Fin 6.45) (Fin 8.0) (Fin 6.0) = ''Hold''"
proof -
  obtain sc where h: "score_stock US example_bundle = Inr (Fin 6.45, sc, ''Default'')"
    "sc pe_vs_sector = Fin 5" "sc financial_health = Fin 10" "sc valuation = Fin 5"
    "sc growth = Fin 6.25" "sc management = Fin 6" "sc moat = Fin 6"
    "sc risk = Fin 10" "sc dividend = Fin (10 / 3)"
    using example_result by blast
  have w: "derived_weights (\<lambda>k. \<not> isnan (sc k)) STOCK_W = Inr (map (\<lambda>(k, v). (k, 0.125)) STOCK_W)"
    by (simp add: h STOCK_W_eq derived_weights_def renorm_weights_def)
  have o: "weighted_overall sc =
      Inr (Fin ((5.0 + 10.0 + 5.0 + 6.25 + 6.0 + 6.0 + 10.0 + 0.02 * 100 / 0.6) / 8))"
    by (simp add: weighted_overall_def w) (simp add: h STOCK_W_eq)
  have m: "lookup_medians US ''Default'' = Inr \<lparr>PE = 18, EVEBITDA = 12, PS = 2.0, PFCF = 18\<rparr>"
    by (simp add: lookup_medians_def)
  have r: "reco (Fin 6.45) (Fin 8.0) (Fin 6.0) = ''Hold''"
    by (simp add: reco_def)
  show ?thesis
    apply (rule exI [of _ sc])
    using h w o m r by simp
qed

text \<open>
  C2, as stated, fails. With seven of the eight stock factors available (no dividend
  score) each derived weight is the double nearest to 1/7, and the seven weights sum to
  \<open>1 - 2^-54\<close>, not to 1; added one by one in doubles they give \<open>1 - 2^-52\<close>. With a
  negative nominal weight the sum of the remaining weights can fail to be positive
  although an available factor has a positive weight: all derived weights are then 0.
\<close>

theorem derived_weights_sum_counterexample:
  "derived_weights_f64 (\<lambda>k. k \<noteq> dividend) STOCK_W =
     Inr [(pe_vs_sector, 2573485501354569 / 2 ^ 54), (financial_health, 2573485501354569 / 2 ^ 54),
          (valuation, 2573485501354569 / 2 ^ 54), (growth, 2573485501354569 / 2 ^ 54),
          (management, 2573485501354569 / 2 ^ 54), (moat, 2573485501354569 / 2 ^ 54),
          (risk, 2573485501354569 / 2 ^ 54), (dividend, 0)]
   \<and> sum_list (replicate 7 (2573485501354569 / 2 ^ 54) @ [0 :: real]) = 1 - 1 / 2 ^ 54
   \<and> sum_f64 (replicate 7 (2573485501354569 / 2 ^ 54) @ [0]) = 1 - 1 / 2 ^ 52
   \<and> derived_weights_f64 (\<lambda>k. True) [(''a'', 1), (''b'', - 2)] = Inr [(''a'', 0), (''b'', 0)]"
  by code_simp

text \<open>
  C2, amended. For every nominal weight list \<open>W\<close> and every set \<open>avail\<close> of available
  factors, weight resolution on doubles returns a weight for every key of \<open>W\<close>. When
  the nominal weights are non-negative and an available factor has a positive weight,
  the derived weights sum to 1 up to rounding: their sum differs from 1 by at most
  \<open>(n + 1) / 2^52\<close>, where \<open>n\<close> is the number of factors (at most \<open>2^52\<close>). When the
  sum of the remaining weights is not positive, in particular when no factor is
  available, every derived weight is exactly 0. An unavailable factor always has the
  derived weight 0.
\<close>

theorem derived_weights_f64_sum:
  "\<exists>w. derived_weights_f64 avail W = Inr w \<and> map fst w = map fst W
     \<and> ((\<forall>(k, v) \<in> set W. 0 \<le> v) \<and> (\<exists>(k, v) \<in> set W. avail k \<and> 0 < v)
           \<and> length W \<le> 2 ^ 52
          \<longrightarrow> \<bar>sum_list (map snd w) - 1\<bar> \<le> (real (length W) + 1) / 2 ^ 52)
     \<and> (\<not> 0 < sum_f64 (map (\<lambda>(k, v). if avail k then v else 0) W)
          \<longrightarrow> (\<forall>(k, v) \<in> set w. v = 0))
     \<and> ((\<forall>(k, v) \<in> set W. \<not> avail k) \<longrightarrow> (\<forall>(k, v) \<in> set w. v = 0))
     \<and> (\<forall>(k, v) \<in> set w. \<not> avail k \<longrightarrow> v = 0)"
proof -
  define vs where "vs = map (\<lambda>(k, v). if avail k then v else 0) W"
  define s where "s = sum_f64 vs"
  define w where
    "w = map (\<lambda>(k, v). (k, if s > 0 then round_f64 ((if avail k then v else 0) / s) else 0)) W"
  have e: "derived_weights_f64 avail W = Inr w"
    unfolding w_def s_def vs_def by (rule derived_weights_f64_eq)
  have k: "map fst w = map fst W"
    unfolding w_def by (induction W) auto
  have snd_w: "map snd w = map (\<lambda>v. if s > 0 then round_f64 (v / s) else 0) vs"
    unfolding w_def vs_def by (induction W) auto
  have near: "\<bar>sum_list (map snd w) - 1\<bar> \<le> (real (length W) + 1) / 2 ^ 52"
    if nn: "\<forall>(k, v) \<in> set W. 0 \<le> v" and ex: "\<exists>(k, v) \<in> set W. avail k \<and> 0 < v"
      and len: "length W \<le> 2 ^ 52"
  proof -
    have vnn: "\<forall>v \<in> set vs. 0 \<le> v" unfolding vs_def using nn by auto
    have S: "0 < sum_list vs" unfolding vs_def using avail_sum_pos [OF nn ex] .
    have n: "length vs = length W" by (simp add: vs_def)
    have s1: "sum_list vs * (1 - u64) ^ length W \<le> s"
      and s2: "s \<le> sum_list vs * (1 + u64) ^ length W"
      unfolding s_def using sum_f64_bounds [OF vnn] n by simp_all
    have u: "0 \<le> u64" "u64 \<le> 1 / 2" by (simp_all add: u64_def)
    have "real (length W) \<le> 2 ^ 52"
    proof -
      have "real (length W) \<le> real (2 ^ 52)" using len by (simp only: of_nat_le_iff)
      then show ?thesis by simp
    qed
    then have nu: "real (length W) * u64 \<le> 1 / 2" by (simp add: u64_def)
    have "(1 - u64) ^ length W > 0" using u by (intro zero_less_power) simp
    then have "0 < sum_list vs * (1 - u64) ^ length W" using S by simp
    then have s0: "0 < s" using s1 by linarith
    then have "map snd w = map (\<lambda>v. round_f64 (v / s)) vs"
      using snd_w by simp
    then have T: "sum_list vs / s * (1 - u64) \<le> sum_list (map snd w)"
        "sum_list (map snd w) \<le> sum_list vs / s * (1 + u64)"
      using quotients_f64_bounds [OF s0 vnn] by simp_all
    have "\<bar>sum_list (map snd w) - 1\<bar> \<le> 2 * (real (length W) + 1) * u64"
      by (rule renormalised_sum_near_one [OF S u nu s1 s2 T])
    then show ?thesis by (simp add: u64_def)
  qed
  have zero: "\<forall>(k, v) \<in> set w. v = 0" if "\<not> 0 < s"
    unfolding w_def using that by auto
  have none: "\<forall>(k, v) \<in> set w. v = 0" if "\<forall>(k, v) \<in> set W. \<not> avail k"
  proof -
    have "\<forall>v \<in> set vs. v = 0" unfolding vs_def using that by auto
    then have "s = 0" unfolding s_def by (rule sum_f64_zeros)
    then show ?thesis using zero by simp
  qed
  have un: "\<forall>(k, v) \<in> set w. \<not> avail k \<longrightarrow> v = 0"
    unfolding w_def by (auto simp: round_f64_zero)
  show ?thesis
    apply (rule exI [of _ w])
    using e k near zero none un unfolding s_def vs_def by blast
qed

theorem derived_weights_f64_sum_witness:
  "(\<exists>w. derived_weights_f64 (\<lambda>k. k \<noteq> dividend) STOCK_W = Inr w
        \<and> \<bar>sum_list (map snd w) - 1\<bar> \<le> 9 / 2 ^ 52)
   \<and> (\<exists>w. derived_weights_f64 (\<lambda>k. False) STOCK_W = Inr w \<and> map snd w = replicate 8 0)"
proof -
  have h1: "(\<forall>(k, v) \<in> set STOCK_W. 0 \<le> v)
      \<and> (\<exists>(k, v) \<in> set STOCK_W. k \<noteq> dividend \<and> 0 < v) \<and> length STOCK_W \<le> 2 ^ 52"
    by (simp add: STOCK_W_eq)
  have l: "(real (length STOCK_W) + 1) / 2 ^ 52 = 9 / 2 ^ 52"
    by (simp add: STOCK_W_eq)
  have a: "\<exists>w. derived_weights_f64 (\<lambda>k. k \<noteq> dividend) STOCK_W = Inr w
        \<and> \<bar>sum_list (map snd w) - 1\<bar> \<le> 9 / 2 ^ 52"
    using derived_weights_f64_sum [of "\<lambda>k. k \<noteq> dividend" STOCK_W] h1 unfolding l by blast
  have h2: "\<forall>(k, v) \<in> set STOCK_W. \<not> False" by simp
  obtain w where w: "derived_weights_f64 (\<lambda>k. False) STOCK_W = Inr w"
      "map fst w = map fst STOCK_W" "\<forall>(k, v) \<in> set w. v = 0"
    using derived_weights_f64_sum [of "\<lambda>k. False" STOCK_W] h2 by blast
  have "derived_weights_f64 (\<lambda>k. False) STOCK_W = Inr (map (\<lambda>(k, v). (k, 0)) STOCK_W)"
    by (simp add: derived_weights_f64_eq STOCK_W_eq sum_f64_def round_f64_zero)
  then have "map snd w = replicate 8 0"
    using w(1) by (auto simp add: STOCK_W_eq numeral_eq_Suc)
  then show ?thesis using a w(1) by blast
qed

text \<open>
  C3, as stated, fails. With the US Default medians, price/earnings 1 and price/sales
  100 give the sub-ratio values 90 and 0.1; the mean of the clamped values 10 and 0.1
  is 5.05, but the valuation factor is 10: the code averages the unclamped values and
  clamps the mean.
\<close>

theorem valuation_mean_of_clamped_counterexample:
  "lookup_medians US ''Default'' = Inr \<lparr>PE = 18, EVEBITDA = 12, PS = 2.0, PFCF = 18\<rparr>
   \<and> vs_median 18 (Some (Fin 1)) = Inr (Fin 90)
   \<and> vs_median 2.0 (Some (Fin 100)) = Inr (Fin 0.1)
   \<and> nanmean [zclip (Some (Fin 90)) 0 10, zclip (Some (Fin 0.1)) 0 10] = Fin 5.05
   \<and> valuation_score \<lparr>PE = 18, EVEBITDA = 12, PS = 2.0, PFCF = 18\<rparr>
        (Some (Fin 1)) (Some (Fin 100)) None = Inr (Fin 10)"
  by (simp add: lookup_medians_def vs_median_def nanmean_def valuation_score_def comp_entry_def)

text \<open>
  C3, amended. A sub-ratio is available when its metric is a number other than zero and
  its median is not zero; its value is \<open>5 + 5 * (median / actual - 1)\<close>. The valuation
  factor is the arithmetic mean of the unclamped values of the available sub-ratios,
  clamped into [0,10] after averaging, and undefined exactly when no sub-ratio is
  available. Only price/earnings has a clamped sub-score of its own, pe_vs_sector.
\<close>

theorem valuation_mean_then_clamp:
  "valuation_score med x y z =
     Inr (let vs = concat (map (\<lambda>(M, u). case u of
                      Some (Fin v) \<Rightarrow> if v \<noteq> 0 \<and> M \<noteq> 0 then [5 + 5 * (M / v - 1)] else []
                    | _ \<Rightarrow> [])
                [(PE med, x), (PS med, y), (PFCF med, z)])
          in if vs = [] then NaN else Fin (max 0 (min 10 (sum_list vs / real (length vs)))))
   \<and> pe_vs_sector_score med x =
     Inr (case x of
            Some (Fin v) \<Rightarrow>
              if v \<noteq> 0 \<and> PE med \<noteq> 0 then Fin (max 0 (min 10 (5 + 5 * (PE med / v - 1))))
              else NaN
          | _ \<Rightarrow> NaN)"
  by (cases x rule: truthy.cases; cases y rule: truthy.cases; cases z rule: truthy.cases)
     (simp_all add: valuation_score_def pe_vs_sector_score_def comp_entry_def vs_median_def
        nanmean_def Let_def)

text \<open>
  C4, as stated, fails. A missing return is NaN in a fetched bundle. With the 1-year
  return NaN and the 3-year return 0.30 the growth score is 6.5, not the 5.75 that
  substituting 0 gives; with both returns NaN it is undefined, not 5.
\<close>

theorem growth_zero_substitution_counterexample:
  "growth_score (Some NaN) (Some (Fin 0.30)) = Fin 6.5
   \<and> zclip (Some (Fin 5 + nanmean [Fin 0 * Fin 10, Fin 0.30 * Fin 5])) 0 10 = Fin 5.75
   \<and> growth_score (Some NaN) (Some NaN) = NaN"
  by (simp add: growth_score_def nanmean_def)

text \<open>
  C4, amended. With both returns numbers the growth score is
  \<open>5 + mean (r1 * 10, r3 * 5)\<close> clamped into [0,10]. A return that is NaN is left out
  of the mean instead of being replaced by 0: with one return NaN the score is 5 plus the
  other term, clamped, and with both NaN the growth score is undefined.
\<close>

theorem growth_skips_nan:
  "growth_score (Some (Fin a)) (Some (Fin b)) = Fin (max 0 (min 10 (5 + (a * 10 + b * 5) / 2)))
   \<and> growth_score (Some NaN) (Some (Fin b)) = Fin (max 0 (min 10 (5 + b * 5)))
   \<and> growth_score (Some (Fin a)) (Some NaN) = Fin (max 0 (min 10 (5 + a * 10)))
   \<and> growth_score (Some NaN) (Some NaN) = NaN"
  by (simp add: growth_score_def nanmean_def)

text \<open>
  C5, as stated, fails. A dividend yield of exactly 0 gives the defined sub-score 0,
  a missing yield gives the undefined one.
\<close>

theorem dividend_zero_counterexample:
  "dividend_score (Some (Fin 0)) = Inr (Fin 0) \<and> dividend_score None = Inr NaN"
  by (simp add: dividend_score_def)

text \<open>
  C5, amended. The dividend sub-score is \<open>yield * 100 / 0.6\<close> clamped into [0,10] when
  the yield is a number, zero included (a yield of 0 scores 0), and undefined when the
  yield is missing (\<^verbatim>\<open>None\<close> or NaN).
\<close>

theorem dividend_defined_at_zero:
  "dividend_score (Some (Fin v)) = Inr (Fin (max 0 (min 10 (v * 100 / 0.6))))
   \<and> dividend_score None = Inr NaN \<and> dividend_score (Some NaN) = Inr NaN
   \<and> dividend_score (Some (Fin 0)) = Inr (Fin 0)"
  by (simp add: dividend_score_def)

text \<open>
  C6. Every code with the suffix BEES should be detected as an India ETF. The codes
  that the source itself lists as Indian ETFs carry the prefix \<^verbatim>\<open>NSE:\<close>, which is
  tested before the suffix: they are detected as India stocks. Without the prefix the
  same ticker is an India ETF.
\<close>

theorem detect_prefixed_bees_as_stock:
  "map detect_country_and_type IN_ETFS =
     [(India, Stock, ''NSE:NIFTYBEES''), (India, Stock, ''NSE:BANKBEES''),
      (India, Stock, ''NSE:JUNIORBEES'')]
   \<and> detect_country_and_type ''NIFTYBEES'' = (India, ETF, ''NIFTYBEES'')"
  by (simp add: IN_ETFS_def detect_country_and_type_def upper_def strip_def is_space_def
      upper_char_def suffix_def)

text \<open>
  C7. Every factor computation returns, and its sub-score is undefined (NaN) or lies in
  the closed interval [0,10], whatever the metrics and the medians are; so does every
  sub-score in a result of \<open>score_stock\<close> (management and moat are the constant 6).
\<close>

theorem sub_scores_clamped:
  "(\<exists>s. pe_vs_sector_score med x = Inr s \<and> in_0_10 s)
   \<and> in_0_10 (financial_health_score x)
   \<and> (\<exists>s. valuation_score med x y z = Inr s \<and> in_0_10 s)
   \<and> in_0_10 (growth_score x y)
   \<and> in_0_10 (risk_score x)
   \<and> (\<exists>s. dividend_score x = Inr s \<and> in_0_10 s)
   \<and> (score_stock c m = Inr (ov, sc, sec) \<longrightarrow> in_0_10 (sc k))"
  using pe_vs_sector_ok [of med x] financial_health_ok [of x] valuation_ok [of med x y z]
    growth_ok [of x y] risk_ok [of x] dividend_ok [of x] score_stock_Inr [of c m ov sc sec]
  by blast

theorem sub_scores_clamped_witness:
  "\<exists>sc. score_stock US example_bundle = Inr (Fin 6.45, sc, ''Default'')
     \<and> in_0_10 (sc dividend) \<and> in_0_10 (sc pe_vs_sector)"
proof -
  obtain sc where h: "score_stock US example_bundle = Inr (Fin 6.45, sc, ''Default'')"
    using example_result by blast
  have "in_0_10 (sc dividend)"
    using sub_scores_clamped [of _ _ _ _ US example_bundle "Fin 6.45" sc "''Default''" dividend] h
    by blast
  moreover have "in_0_10 (sc pe_vs_sector)"
    using sub_scores_clamped [of _ _ _ _ US example_bundle "Fin 6.45" sc "''Default''" pe_vs_sector] h
    by blast
  ultimately show ?thesis using h by blast
qed

text \<open>
  C8. For every defined overall score and every pair of thresholds the classifier
  returns Buy when the score is at least the buy threshold, otherwise Hold when it is at
  least the hold threshold, otherwise Sell/Avoid; at the thresholds 8 and 6 the scores
  8, 7.99 and 5.99 are classified Buy, Hold and Sell/Avoid.
\<close>

theorem reco_thresholds:
  "reco (Fin x) (Fin b) (Fin h) =
     (if x \<ge> b then ''Buy'' else if x \<ge> h then ''Hold'' else ''Sell/Avoid'')
   \<and> reco (Fin 8) (Fin 8) (Fin 6) = ''Buy''
   \<and> reco (Fin 7.99) (Fin 8) (Fin 6) = ''Hold''
   \<and> reco (Fin 5.99) (Fin 8) (Fin 6) = ''Sell/Avoid''"
  by (simp add: reco_def)

text \<open>
  C9, as stated, fails. A beta of exactly 0 is replaced by 1, so the risk score is 10
  where the formula \<open>10 - |beta - 1| * 5\<close> gives 5.
\<close>

theorem risk_zero_beta_counterexample:
  "risk_score (Some (Fin 0)) = Fin 10
   \<and> zclip (Some (Fin 10 - \<bar>Fin 0 - Fin 1\<bar> * Fin 5)) 0 10 = Fin 5"
  by (simp add: risk_score_def)

text \<open>
  C9, amended. The risk sub-score is \<open>10 - |beta - 1| * 5\<close> clamped into [0,10], where
  beta is taken as 1.0 (a risk score of 10) when it is missing (\<^verbatim>\<open>None\<close>) and also
  when it is exactly 0; a NaN beta gives an undefined risk score.
\<close>

theorem risk_formula:
  "risk_score (Some (Fin b)) = Fin (if b = 0 then 10 else max 0 (min 10 (10 - \<bar>b - 1\<bar> * 5)))
   \<and> risk_score None = Fin 10 \<and> risk_score (Some NaN) = NaN"
  by (simp add: risk_score_def)


end
